theory Spec2Isabelle
  imports Main "HOL-Library.Char_ord" "HOL-Library.List_Lexorder"
begin

section \<open>Shared vocabulary: bytes, errors, log entries\<close>

text \<open>
  A Go \<open>[]byte\<close> is a list of characters; the nil slice and the empty slice are both
  \<open>[]\<close> (every consumer below only looks at the contents). A Go \<open>error\<close> interface
  value is a \<open>go_error option\<close>, with \<open>None\<close> for nil. The constructors of
  \<open>go_error\<close> are the dynamic types the sources test for with type assertions:
  \<open>*net.OpError\<close> (operation, wrapped error), \<open>*os.SyscallError\<close> (system call,
  wrapped error) and \<open>syscall.Errno\<close>; every other error is an \<open>ErrorString\<close>.
\<close>

type_synonym bytes = string

datatype go_error =
    ErrorString string
  | Errno nat
  | SyscallError string go_error
  | OpError string go_error

text \<open>
  logrus: an entry is a level, the fields attached with \<open>WithError\<close> and
  \<open>WithField\<close> (in the order they were attached) and the message. The logger is a
  shared pointer; the entries it has written are threaded through the model as a list.
\<close>

datatype level = PanicLevel | FatalLevel | ErrorLevel | WarnLevel | InfoLevel | DebugLevel

datatype field_val = FError go_error | FInt int | FString string

datatype log_entry = Entry level "(string \<times> field_val) list" string

datatype Logger = LogrusLogger string

definition WithError :: "go_error \<Rightarrow> (string \<times> field_val) list" where
  "WithError e = [(''error'', FError e)]"

section \<open>encoding/json: Marshal of a string-keyed map\<close>

text \<open>
  The one value the exporter marshals is a \<open>map[string]interface{}\<close> whose values are
  strings. The model covers that shape: a map is an association list in the order of the
  map literal, \<open>json_Marshal\<close> writes the entries sorted by key (as encoding/json does
  for maps) and fails with an unsupported-type error on a value it cannot encode (a
  channel stands for those). String escaping follows the encoder's table for ASCII:
  the quote and the backslash get a backslash, newline, carriage return and tab their
  short forms, every other control character and \<open><\<close>, \<open>>\<close>, \<open>&\<close> the form
  \<open>\u00XX\<close>; bytes from 0x80 on are copied.
\<close>

datatype go_value = VString string | VChan

definition hex_digit :: "nat \<Rightarrow> char" where
  "hex_digit n = ''0123456789abcdef'' ! (n mod 16)"

definition json_escape_char :: "char \<Rightarrow> string" where
  "json_escape_char c =
     (let n = (of_char c :: nat) in
      if c = CHR 0x22 \<or> c = CHR 0x5C then [CHR 0x5C, c]
      else if c = CHR 0x0A then [CHR 0x5C, CHR ''n'']
      else if c = CHR 0x0D then [CHR 0x5C, CHR ''r'']
      else if c = CHR 0x09 then [CHR 0x5C, CHR ''t'']
      else if n < 32 \<or> c = CHR ''<'' \<or> c = CHR ''>'' \<or> c = CHR ''&''
        then [CHR 0x5C, CHR ''u'', CHR ''0'', CHR ''0'', hex_digit (n div 16), hex_digit n]
      else [c])"

definition json_string :: "string \<Rightarrow> bytes" where
  "json_string s = [CHR 0x22] @ concat (map json_escape_char s) @ [CHR 0x22]"

fun json_value :: "go_value \<Rightarrow> go_error + bytes" where
  "json_value (VString s) = Inr (json_string s)"
| "json_value VChan = Inl (ErrorString ''json: unsupported type: chan int'')"

fun json_entries :: "(string \<times> go_value) list \<Rightarrow> go_error + bytes list" where
  "json_entries [] = Inr []"
| "json_entries ((k, v) # kvs) =
     (case json_value v of
        Inl e \<Rightarrow> Inl e
      | Inr b \<Rightarrow>
          (case json_entries kvs of
             Inl e \<Rightarrow> Inl e
           | Inr bs \<Rightarrow> Inr ((json_string k @ '':'' @ b) # bs)))"

fun join_commas :: "bytes list \<Rightarrow> bytes" where
  "join_commas [] = []"
| "join_commas [b] = b"
| "join_commas (b # bs) = b @ '','' @ join_commas bs"

definition json_Marshal :: "(string \<times> go_value) list \<Rightarrow> go_error + bytes" where
  "json_Marshal m =
     (case json_entries (sort_key fst m) of
        Inl e \<Rightarrow> Inl e
      | Inr bs \<Rightarrow> Inr (''{'' @ join_commas bs @ ''}''))"

section \<open>The fail-fast listener (exporter.go, emfileAwareTcpListener)\<close>

text \<open>
  \<open>time.Duration\<close> counts nanoseconds in an int64; the constants below are far
  from its bounds. An accepted \<open>*net.TCPConn\<close> is a record of its identity and of the
  keep-alive settings made on it. \<open>syscall.EMFILE\<close> is errno 24 (0x18).
\<close>

definition Second :: int where "Second = 1000000000"
definition Minute :: int where "Minute = 60 * Second"
definition keepAlive :: int where "keepAlive = 3 * Minute"

definition EMFILE :: nat where "EMFILE = 24"

record TCPConn =
  fd :: nat
  keepAliveEnabled :: bool
  keepAlivePeriod :: int

definition SetKeepAlive :: "bool \<Rightarrow> TCPConn \<Rightarrow> TCPConn" where
  "SetKeepAlive on tc = tc\<lparr>keepAliveEnabled := on\<rparr>"

definition SetKeepAlivePeriod :: "int \<Rightarrow> TCPConn \<Rightarrow> TCPConn" where
  "SetKeepAlivePeriod d tc = tc\<lparr>keepAlivePeriod := d\<rparr>"

text \<open>
  \<open>Accept\<close> either returns its two results (the connection, nil when no connection
  is returned, and the error) or ends the process: \<open>logger.Fatal\<close> writes the entry
  and calls \<open>os.Exit\<close>. The argument is what \<open>ln.AcceptTCP()\<close> returned. On the
  error path the bare \<open>return\<close> gives back the named results: \<open>c\<close> was never
  assigned, \<open>err\<close> is the error of \<open>AcceptTCP\<close>. The two setters on a nil
  connection do nothing, and their results are dropped.
\<close>

datatype accept_outcome =
    Returns "TCPConn option" "go_error option"
  | Exits log_entry

definition Accept :: "TCPConn option \<times> go_error option \<Rightarrow> accept_outcome" where
  "Accept r =
     (case r of
        (tc, err) \<Rightarrow>
          (case err of
             Some e \<Rightarrow>
               (case e of
                  OpError opn oerr \<Rightarrow>
                    (case oerr of
                       SyscallError sc serr \<Rightarrow>
                         if serr = Errno EMFILE
                         then Exits (Entry FatalLevel (WithError e)
                                       ''running out of file descriptors'')
                         else Returns None (Some e)
                     | _ \<Rightarrow> Returns None (Some e))
                | _ \<Rightarrow> Returns None (Some e))
           | None \<Rightarrow>
               (case tc of
                  Some c \<Rightarrow> Returns (Some (SetKeepAlivePeriod keepAlive (SetKeepAlive True c))) None
                | None \<Rightarrow> Returns None None)))"

section \<open>prometheus: descriptors and constant metrics\<close>

text \<open>
  A descriptor is what \<open>prometheus.NewDesc\<close> was given: the fully qualified name, the
  help text, the names of the variable labels and the constant labels (a
  \<open>prometheus.Labels\<close> map, as an association list). A constant metric is the
  descriptor, the value type, the value and the values of the variable labels.
  \<open>float64 n\<close> is the conversion \<open>float64(n)\<close> of an int64; no arithmetic is done on
  it. \<open>MustNewConstMetric\<close> panics when the number of label values differs from the
  number of variable labels of the descriptor: its result is the panic value or the
  metric. The library also panics on a descriptor that \<open>NewDesc\<close> found faulty and
  on a label value that is not valid UTF-8; these two checks are not part of the
  definition, so a run of the program can end in a panic at a send that the definition
  lets through. No theorem below says that a send does not panic.
\<close>

record Desc =
  fqName :: string
  helpText :: string
  variableLabels :: "string list"
  constLabels :: "(string \<times> string) list"

definition NewDesc :: "string \<Rightarrow> string \<Rightarrow> string list \<Rightarrow> (string \<times> string) list \<Rightarrow> Desc" where
  "NewDesc n h vl cl = \<lparr>fqName = n, helpText = h, variableLabels = vl, constLabels = cl\<rparr>"

datatype ValueType = CounterValue | GaugeValue | UntypedValue

datatype float64 = float64 int

record Metric =
  desc :: Desc
  valueType :: ValueType
  val :: float64
  labelValues :: "string list"

definition MustNewConstMetric ::
  "Desc \<Rightarrow> ValueType \<Rightarrow> float64 \<Rightarrow> string list \<Rightarrow> go_error + Metric" where
  "MustNewConstMetric d vt v lvs =
     (if length lvs = length (variableLabels d)
      then Inr \<lparr>desc = d, valueType = vt, val = v, labelValues = lvs\<rparr>
      else Inl (ErrorString ''inconsistent label cardinality''))"

section \<open>The exporter (exporter.go)\<close>

text \<open>
  Modelled from the spec: the \<open>version\<close> package is not among the sources. Section 3
  gives a cluster version its key attributes: major, minor, patch and the raw string.
\<close>

record Version =
  Major :: int
  Minor :: int
  Patch :: int
  Raw :: string

text \<open>
  \<open>collectors.Conn\<close> is an interface; the exporter calls its \<open>MonCommand\<close>, which
  returns the reply buffer, an info string and the error.
\<close>

record Conn =
  MonCommand :: "bytes \<Rightarrow> bytes \<times> string \<times> go_error option"

text \<open>
  Modelled from the spec: the gateway-mode constants of the \<open>collectors\<close> package are
  not among the sources. Section 6 numbers them disabled=0, foreground=1, background=2,
  as does the help text of the \<open>RGW_MODE\<close> flag in \<open>main\<close>.
\<close>

definition RGWModeDisabled :: int where "RGWModeDisabled = 0"
definition RGWModeForeground :: int where "RGWModeForeground = 1"
definition RGWModeBackground :: int where "RGWModeBackground = 2"

text \<open>\<open>mu\<close> is the \<open>sync.Mutex\<close>: true while it is locked.\<close>

record CephExporter =
  mu :: bool
  conn :: Conn
  cluster :: string
  config :: string
  rgwMode :: int
  logger :: Logger

definition NewCephExporter :: "Conn \<Rightarrow> string \<Rightarrow> string \<Rightarrow> int \<Rightarrow> Logger \<Rightarrow> CephExporter" where
  "NewCephExporter cn cl cf m lg =
     \<lparr>mu = False, conn = cn, cluster = cl, config = cf, rgwMode = m, logger = lg\<rparr>"

text \<open>
  A sub-collector is the constructor call of the \<open>collectors\<close> package that made it,
  with its arguments. What a sub-collector describes and collects is outside these
  sources and comes from the \<open>world\<close> below.
\<close>

datatype Collector =
    NewClusterUsageCollector Conn string Logger
  | NewPoolUsageCollector Conn string Logger
  | NewPoolInfoCollector Conn string Logger
  | NewClusterHealthCollector Conn string Logger
  | NewMonitorCollector Conn string Logger
  | NewOSDCollector Conn string Logger
  | NewRGWCollector string string bool Logger

text \<open>
  \<open>getCollectors\<close> returns the active list and the entries it logged. The Go
  \<open>switch\<close> takes the first matching case.
\<close>

definition getCollectors :: "CephExporter \<Rightarrow> Collector list \<times> log_entry list" where
  "getCollectors c =
     (let standardCollectors =
            [NewClusterUsageCollector (conn c) (cluster c) (logger c),
             NewPoolUsageCollector (conn c) (cluster c) (logger c),
             NewPoolInfoCollector (conn c) (cluster c) (logger c),
             NewClusterHealthCollector (conn c) (cluster c) (logger c),
             NewMonitorCollector (conn c) (cluster c) (logger c),
             NewOSDCollector (conn c) (cluster c) (logger c)]
      in if rgwMode c = RGWModeForeground
           then (standardCollectors @ [NewRGWCollector (cluster c) (config c) False (logger c)], [])
         else if rgwMode c = RGWModeBackground
           then (standardCollectors @ [NewRGWCollector (cluster c) (config c) True (logger c)], [])
         else if rgwMode c = RGWModeDisabled
           then (standardCollectors, [])
         else (standardCollectors,
               [Entry WarnLevel [(''rgwMode'', FInt (rgwMode c))]
                  ''RGW collector disabled due to invalid mode'']))"

text \<open>
  \<open>cephVersionCmd\<close> returns the command, or panics with the entry that
  \<open>logger.Panic\<close> wrote (\<open>Inl\<close>).
\<close>

definition cephVersionCmd :: "CephExporter \<Rightarrow> log_entry + bytes" where
  "cephVersionCmd c =
     (case json_Marshal [(''prefix'', VString ''version''), (''format'', VString ''json'')] of
        Inl err \<Rightarrow> Inl (Entry PanicLevel (WithError err) ''failed to marshal ceph version command'')
      | Inr cmd \<Rightarrow> Inr cmd)"

text \<open>
  What the exporter takes from outside these sources: the decoding of the version reply
  into the struct with the one field \<open>Version\<close> (the field after decoding, and the
  error), \<open>version.ParseCephVersion\<close>, and the behaviour of the sub-collectors. A
  sub-collector's \<open>Collect\<close> reads the shared version slot when it is called.
\<close>

record world =
  json_Unmarshal_version :: "bytes \<Rightarrow> string \<times> go_error option"
  ParseCephVersion :: "string \<Rightarrow> Version option \<times> go_error option"
  sub_Describe :: "Collector \<Rightarrow> Desc list"
  sub_Collect :: "Collector \<Rightarrow> Version option \<Rightarrow> Metric list"

text \<open>
  The package-level state: the shared slot \<open>CephVersion\<close> (a pointer, nil at start),
  and the entries written to the logger. \<open>calls\<close> records every call made to a
  sub-collector, in order; the program does not read it.
\<close>

datatype call = DescribeCall Collector | CollectCall Collector

record globals =
  CephVersion :: "Version option"
  log :: "log_entry list"
  calls :: "call list"

text \<open>
  \<open>setCephVersion\<close> returns its error and the new package state, or panics (\<open>Inl\<close>)
  when \<open>cephVersionCmd\<close> does. The lock around the assignment protects one store.
\<close>

definition setCephVersion ::
  "world \<Rightarrow> CephExporter \<Rightarrow> globals \<Rightarrow> log_entry + (go_error option \<times> globals)" where
  "setCephVersion w c g =
     (case cephVersionCmd c of
        Inl p \<Rightarrow> Inl p
      | Inr cmd \<Rightarrow>
          (case MonCommand (conn c) cmd of
             (buf, info, err) \<Rightarrow>
               (case err of
                  Some e \<Rightarrow> Inr (Some e, g)
                | None \<Rightarrow>
                    (case json_Unmarshal_version w buf of
                       (cephVersion, err2) \<Rightarrow>
                         (case err2 of
                            Some e \<Rightarrow> Inr (Some e, g)
                          | None \<Rightarrow>
                              (case ParseCephVersion w cephVersion of
                                 (parsedVersion, err3) \<Rightarrow>
                                   (case err3 of
                                      Some e \<Rightarrow> Inr (Some e, g)
                                    | None \<Rightarrow> Inr (None, g\<lparr>CephVersion := parsedVersion\<rparr>))))))))"

text \<open>
  The outcome of a call of \<open>Describe\<close> or \<open>Collect\<close>: it returns, it panics, or it
  waits for a mutex that is held.
\<close>

datatype 'a outcome = Done 'a | Panics log_entry | Blocks

fun describe_all :: "world \<Rightarrow> Collector list \<Rightarrow> globals \<Rightarrow> Desc list \<Rightarrow> globals \<times> Desc list" where
  "describe_all w [] g ch = (g, ch)"
| "describe_all w (cc # ccs) g ch =
     describe_all w ccs (g\<lparr>calls := calls g @ [DescribeCall cc]\<rparr>) (ch @ sub_Describe w cc)"

definition collect_one :: "world \<Rightarrow> Collector \<Rightarrow> globals \<Rightarrow> Metric list \<Rightarrow> globals \<times> Metric list" where
  "collect_one w cc g ch =
     (g\<lparr>calls := calls g @ [CollectCall cc]\<rparr>, ch @ sub_Collect w cc (CephVersion g))"

fun collect_all :: "world \<Rightarrow> Collector list \<Rightarrow> globals \<Rightarrow> Metric list \<Rightarrow> globals \<times> Metric list" where
  "collect_all w [] g ch = (g, ch)"
| "collect_all w (cc # ccs) g ch =
     (case collect_one w cc g ch of (g', ch') \<Rightarrow> collect_all w ccs g' ch')"

definition version_failed :: "go_error \<Rightarrow> globals \<Rightarrow> globals" where
  "version_failed e g =
     g\<lparr>log := log g @ [Entry ErrorLevel (WithError e) ''failed to set ceph version'']\<rparr>"

definition CephExporter_Describe ::
  "world \<Rightarrow> CephExporter \<Rightarrow> globals \<Rightarrow> Desc list \<Rightarrow> (globals \<times> Desc list) outcome" where
  "CephExporter_Describe w c g ch =
     (case setCephVersion w c g of
        Inl p \<Rightarrow> Panics p
      | Inr (Some e, g1) \<Rightarrow> Done (version_failed e g1, ch)
      | Inr (None, g1) \<Rightarrow>
          (case getCollectors c of
             (ccs, warn) \<Rightarrow> Done (describe_all w ccs (g1\<lparr>log := log g1 @ warn\<rparr>) ch)))"

text \<open>
  \<open>Collect\<close> by itself, with no other goroutine running: the mutex it finds locked
  stays locked, so the call blocks. The deferred \<open>Unlock\<close> runs when the loop is over.
\<close>

definition CephExporter_Collect ::
  "world \<Rightarrow> CephExporter \<Rightarrow> globals \<Rightarrow> Metric list
     \<Rightarrow> (CephExporter \<times> globals \<times> Metric list) outcome" where
  "CephExporter_Collect w c g ch =
     (case setCephVersion w c g of
        Inl p \<Rightarrow> Panics p
      | Inr (Some e, g1) \<Rightarrow> Done (c, version_failed e g1, ch)
      | Inr (None, g1) \<Rightarrow>
          if mu c then Blocks
          else (let c1 = c\<lparr>mu := True\<rparr> in
                case getCollectors c1 of
                  (ccs, warn) \<Rightarrow>
                    (case collect_all w ccs (g1\<lparr>log := log g1 @ warn\<rparr>) ch of
                       (g2, ch2) \<Rightarrow> Done (c1\<lparr>mu := False\<rparr>, g2, ch2))))"

section \<open>Concurrent calls of Collect\<close>

text \<open>
  Several scrapes call \<open>Collect\<close> on the same exporter at once. Each call is a
  goroutine standing at one point of the method: before \<open>setCephVersion\<close>, before
  \<open>c.mu.Lock()\<close>, before \<open>c.getCollectors()\<close>, inside the loop with the
  sub-collectors still to call, or returned. A step runs one goroutine up to its next
  point; a schedule is the list of the goroutines that step, in order. \<open>Lock\<close> on a
  locked mutex has no step. A panic ends the process: nothing steps after it.
\<close>

datatype pc = AtRefresh | AtLock | AtRange | InLoop "Collector list" | Returned

record invocation =
  point :: pc
  out_ch :: "Metric list"

record cstate =
  receiver :: CephExporter
  glob :: globals
  invs :: "invocation list"
  crashed :: "log_entry option"

definition goto :: "nat \<Rightarrow> pc \<Rightarrow> cstate \<Rightarrow> cstate" where
  "goto t p s = s\<lparr>invs := (invs s)[t := (invs s ! t)\<lparr>point := p\<rparr>]\<rparr>"

definition step :: "world \<Rightarrow> nat \<Rightarrow> cstate \<Rightarrow> cstate option" where
  "step w t s =
     (if length (invs s) \<le> t \<or> crashed s \<noteq> None then None
      else case point (invs s ! t) of
        AtRefresh \<Rightarrow>
          (case setCephVersion w (receiver s) (glob s) of
             Inl p \<Rightarrow> Some (s\<lparr>crashed := Some p\<rparr>)
           | Inr (Some e, g1) \<Rightarrow> Some (goto t Returned (s\<lparr>glob := version_failed e g1\<rparr>))
           | Inr (None, g1) \<Rightarrow> Some (goto t AtLock (s\<lparr>glob := g1\<rparr>)))
      | AtLock \<Rightarrow>
          if mu (receiver s) then None
          else Some (goto t AtRange (s\<lparr>receiver := (receiver s)\<lparr>mu := True\<rparr>\<rparr>))
      | AtRange \<Rightarrow>
          (case getCollectors (receiver s) of
             (ccs, warn) \<Rightarrow>
               Some (goto t (InLoop ccs) (s\<lparr>glob := (glob s)\<lparr>log := log (glob s) @ warn\<rparr>\<rparr>)))
      | InLoop [] \<Rightarrow>
          Some (goto t Returned (s\<lparr>receiver := (receiver s)\<lparr>mu := False\<rparr>\<rparr>))
      | InLoop (cc # ccs) \<Rightarrow>
          (case collect_one w cc (glob s) (out_ch (invs s ! t)) of
             (g', ch') \<Rightarrow>
               Some (s\<lparr>glob := g', invs := (invs s)[t := \<lparr>point = InLoop ccs, out_ch = ch'\<rparr>]\<rparr>))
      | Returned \<Rightarrow> None)"

fun run :: "world \<Rightarrow> nat list \<Rightarrow> cstate \<Rightarrow> cstate option" where
  "run w [] s = Some s"
| "run w (t # ts) s = (case step w t s of None \<Rightarrow> None | Some s' \<Rightarrow> run w ts s')"

definition init :: "CephExporter \<Rightarrow> globals \<Rightarrow> Metric list list \<Rightarrow> cstate" where
  "init c g chs =
     \<lparr>receiver = c, glob = g,
      invs = map (\<lambda>ch. \<lparr>point = AtRefresh, out_ch = ch\<rparr>) chs,
      crashed = None\<rparr>"

text \<open>
  A goroutine is in the locked section from the return of \<open>Lock\<close> to the deferred
  \<open>Unlock\<close>. A schedule is serial when no goroutine steps between two steps of
  another one.
\<close>

fun locked_section :: "pc \<Rightarrow> bool" where
  "locked_section AtRange = True"
| "locked_section (InLoop ccs) = True"
| "locked_section p = False"

definition in_locked_section :: "cstate \<Rightarrow> nat list" where
  "in_locked_section s = filter (\<lambda>t. locked_section (point (invs s ! t))) [0..<length (invs s)]"

definition serial :: "nat list \<Rightarrow> bool" where
  "serial sched = distinct (remdups_adj sched)"

section \<open>The bucket usage collector (package ceph)\<close>

text \<open>
  The decoded replies of \<open>radosgw-admin\<close>. The element types of \<open>Buckets\<close>,
  \<open>Summary\<close> and \<open>Categories\<close> are anonymous structs in the source and are named
  after their place here. The int64 fields are integers: nothing is computed with them.
  The two empty structs \<open>Usage\<close> and \<open>BucketQuota\<close> carry nothing.
\<close>

record BucketStats_Bucket =
  Bucket :: string
  NumShards :: int
  ID :: string
  Owner :: string
  Mtime :: string
  CreationTime :: string

record BucketStats =
  Buckets :: "BucketStats_Bucket list"

record BucketUsage_Category =
  Category :: string
  BytesSent :: int
  BytesReceived :: int
  Ops :: int
  SuccessfulOps :: int

record BucketUsage_Summary =
  User :: string
  Categories :: "BucketUsage_Category list"

record BucketUsage =
  Summary :: "BucketUsage_Summary list"

text \<open>
  What the package takes from outside these sources: the constants
  \<open>radosgwAdminPath\<close> and \<open>cephNamespace\<close>, the output and error of running a
  command (\<open>exec.Command(path, args...).Output()\<close>), and the decoding of a reply into
  a fresh value (the value after decoding, and the error).
\<close>

record env =
  radosgwAdminPath :: string
  cephNamespace :: string
  exec_Output :: "string \<Rightarrow> string list \<Rightarrow> bytes \<times> go_error option"
  json_Unmarshal_buckets :: "bytes \<Rightarrow> BucketStats_Bucket list \<times> go_error option"
  json_Unmarshal_usage :: "bytes \<Rightarrow> BucketUsage \<times> go_error option"

text \<open>
  The package-level functions \<open>listBucketStats\<close> and \<open>showBucketUsage\<close>; the prefix
  keeps them apart from the fields of the same names in the collector.
\<close>

definition pkg_listBucketStats :: "env \<Rightarrow> string \<Rightarrow> string \<Rightarrow> bytes \<times> go_error option" where
  "pkg_listBucketStats E cfg usr =
     (case exec_Output E (radosgwAdminPath E)
             [''-c'', cfg, ''--user'', usr, ''bucket'', ''stats'', ''--format'', ''json''] of
        (out, Some e) \<Rightarrow> ([], Some e)
      | (out, None) \<Rightarrow> (out, None))"

definition pkg_showBucketUsage ::
  "env \<Rightarrow> string \<Rightarrow> string \<Rightarrow> string \<Rightarrow> string \<Rightarrow> bytes \<times> go_error option" where
  "pkg_showBucketUsage E cfg usr bkt uid =
     (case exec_Output E (radosgwAdminPath E)
             [''-c'', cfg, ''--user'', usr, ''usage'', ''show'', ''--bucket'', bkt,
              ''--categories'', ''put_obj,get_obj'', ''--show-log-entries'', ''false'',
              ''--uid'', uid, ''--format'', ''json''] of
        (out, Some e) \<Rightarrow> ([], Some e)
      | (out, None) \<Rightarrow> (out, None))"

text \<open>The fields of \<open>ceph.Exporter\<close> that the constructor reads.\<close>

record Exporter =
  Config :: string
  User :: string
  Logger :: Logger
  Version :: "Version option"
  Cluster :: string

record BucketUsageCollector =
  config :: string
  user :: string
  logger :: Logger
  version :: "Version option"
  BytesSent :: Desc
  BytesReceived :: Desc
  Ops :: Desc
  SuccessfulOps :: Desc
  listBucketStats :: "string \<Rightarrow> string \<Rightarrow> bytes \<times> go_error option"
  showBucketUsage :: "string \<Rightarrow> string \<Rightarrow> string \<Rightarrow> string \<Rightarrow> bytes \<times> go_error option"

definition NewBucketUsageCollector :: "env \<Rightarrow> Exporter \<Rightarrow> BucketUsageCollector" where
  "NewBucketUsageCollector E exporter =
     (let subSystem = ''bucket_usage'';
          bucketLabel = [''bucket'', ''user'', ''category''];
          labels = [(''cluster'', Cluster exporter)]
      in \<lparr>config = Config exporter,
          user = Exporter.User exporter,
          logger = Logger exporter,
          version = Version exporter,
          BytesSent = NewDesc (cephNamespace E @ ''_'' @ subSystem @ ''_bytes_sent'')
                        ''Number of bytes sent by the RADOS Gateway.'' bucketLabel labels,
          BytesReceived = NewDesc (cephNamespace E @ ''_'' @ subSystem @ ''_bytes_recived'')
                        ''Number of bytes received by the RADOS Gateway.'' bucketLabel labels,
          Ops = NewDesc (cephNamespace E @ ''_'' @ subSystem @ ''_ops'')
                        ''Number of operations.'' bucketLabel labels,
          SuccessfulOps = NewDesc (cephNamespace E @ ''_'' @ subSystem @ ''_successful_ops'')
                        ''Number of successful operations.'' bucketLabel labels,
          listBucketStats = pkg_listBucketStats E,
          showBucketUsage = pkg_showBucketUsage E\<rparr>)"

text \<open>
  \<open>collect\<close> starts one goroutine per bucket and waits for all of them. The closures
  assign the results of the lookup to \<open>buf\<close> and \<open>err\<close> of the enclosing function
  (line 81 assigns with \<open>=\<close>), so all goroutines share these two variables, as they
  share \<open>latestErr\<close>, the channel and the logger. A goroutine stands before the
  lookup (line 81), before the test of \<open>err\<close> (lines 82 to 85), before the decoding
  of \<open>buf\<close> (lines 86 to 90), inside the loops with the sends still to make (lines
  91 to 98), or it is done. A send is the argument list of \<open>MustNewConstMetric\<close>.
  The steps are coarser than the program: the test of \<open>err\<close>, the log entry and the
  assignment to \<open>latestErr\<close> are one step with one read of \<open>err\<close>, and a store to
  \<open>buf\<close> or \<open>err\<close> is seen whole by the other goroutines. Every run of the steps
  is a run of the program; the program has further runs.
\<close>

type_synonym send = "Desc \<times> ValueType \<times> float64 \<times> string list"

datatype task = AtCall | AtCheck | AtDecode | AtEmit "send list" | TaskDone

record collect_state =
  buf :: bytes
  err :: "go_error option"
  latestErr :: "go_error option"
  sent :: "Metric list"
  logged :: "log_entry list"
  tasks :: "task list"
  panicked :: "go_error option"

definition category_sends ::
  "BucketUsageCollector \<Rightarrow> BucketStats_Bucket \<Rightarrow> BucketUsage_Summary \<Rightarrow> BucketUsage_Category
     \<Rightarrow> send list" where
  "category_sends b bucket summary category =
     [(BucketUsageCollector.BytesSent b, GaugeValue,
         float64 (BucketUsage_Category.BytesSent category),
         [Bucket bucket, BucketUsage_Summary.User summary, Category category]),
      (BucketUsageCollector.BytesReceived b, GaugeValue,
         float64 (BucketUsage_Category.BytesReceived category),
         [Bucket bucket, BucketUsage_Summary.User summary, Category category]),
      (BucketUsageCollector.Ops b, GaugeValue,
         float64 (BucketUsage_Category.Ops category),
         [Bucket bucket, BucketUsage_Summary.User summary, Category category]),
      (BucketUsageCollector.SuccessfulOps b, GaugeValue,
         float64 (BucketUsage_Category.SuccessfulOps category),
         [Bucket bucket, BucketUsage_Summary.User summary, Category category])]"

definition usage_sends ::
  "BucketUsageCollector \<Rightarrow> BucketStats_Bucket \<Rightarrow> BucketUsage \<Rightarrow> send list" where
  "usage_sends b bucket usage =
     concat (map (\<lambda>summary. concat (map (category_sends b bucket summary) (Categories summary)))
               (Summary usage))"

definition task_at :: "nat \<Rightarrow> task \<Rightarrow> collect_state \<Rightarrow> collect_state" where
  "task_at i t s = s\<lparr>tasks := (tasks s)[i := t]\<rparr>"

text \<open>
  One step of goroutine \<open>i\<close>, the one started for \<open>buckets ! i\<close>. A goroutine that
  is done, or any goroutine after a panic, does nothing.
\<close>

definition task_step ::
  "env \<Rightarrow> BucketUsageCollector \<Rightarrow> BucketStats_Bucket list \<Rightarrow> nat \<Rightarrow> collect_state
     \<Rightarrow> collect_state" where
  "task_step E b buckets i s =
     (if length (tasks s) \<le> i \<or> length buckets \<le> i \<or> panicked s \<noteq> None then s
      else let bucket = buckets ! i in
        case tasks s ! i of
          AtCall \<Rightarrow>
            (case showBucketUsage b (config b) (user b) (Bucket bucket) (Owner bucket) of
               (out, e) \<Rightarrow> task_at i AtCheck (s\<lparr>buf := out, err := e\<rparr>))
        | AtCheck \<Rightarrow>
            (case err s of
               Some e \<Rightarrow>
                 task_at i AtDecode
                   (s\<lparr>logged := logged s @
                        [Entry ErrorLevel (WithError e @ [(''bucket'', FString (Bucket bucket))])
                           ''error getting bucket'usage''],
                      latestErr := Some e\<rparr>)
             | None \<Rightarrow> task_at i AtDecode s)
        | AtDecode \<Rightarrow>
            (case json_Unmarshal_usage E (buf s) of
               (usage, Some e) \<Rightarrow>
                 task_at i (AtEmit (usage_sends b bucket usage))
                   (s\<lparr>logged := logged s @
                        [Entry ErrorLevel (WithError e @ [(''bucket'', FString (Bucket bucket))])
                           ''error unmarhal bucket'usage''],
                      latestErr := Some e\<rparr>)
             | (usage, None) \<Rightarrow> task_at i (AtEmit (usage_sends b bucket usage)) s)
        | AtEmit [] \<Rightarrow> task_at i TaskDone s
        | AtEmit ((d, vt, v, lvs) # rest) \<Rightarrow>
            (case MustNewConstMetric d vt v lvs of
               Inl p \<Rightarrow> s\<lparr>panicked := Some p\<rparr>
             | Inr m \<Rightarrow> task_at i (AtEmit rest) (s\<lparr>sent := sent s @ [m]\<rparr>))
        | TaskDone \<Rightarrow> s)"

text \<open>
  A schedule lists the goroutines that step, in order. \<open>wg.Wait()\<close> returns when
  every goroutine is done: after the schedule, each goroutine that is not done runs to
  its end, in the order of the buckets (three steps reach the loops from any earlier
  point; one step per remaining send and one to finish).
\<close>

fun interleave ::
  "env \<Rightarrow> BucketUsageCollector \<Rightarrow> BucketStats_Bucket list \<Rightarrow> nat list \<Rightarrow> collect_state
     \<Rightarrow> collect_state" where
  "interleave E b buckets [] s = s"
| "interleave E b buckets (i # sched) s = interleave E b buckets sched (task_step E b buckets i s)"

definition send_rest ::
  "env \<Rightarrow> BucketUsageCollector \<Rightarrow> BucketStats_Bucket list \<Rightarrow> nat \<Rightarrow> collect_state
     \<Rightarrow> collect_state" where
  "send_rest E b buckets i s =
     (case (if i < length (tasks s) then tasks s ! i else TaskDone) of
        AtEmit rest \<Rightarrow> (task_step E b buckets i ^^ Suc (length rest)) s
      | _ \<Rightarrow> s)"

definition finish_task ::
  "env \<Rightarrow> BucketUsageCollector \<Rightarrow> BucketStats_Bucket list \<Rightarrow> nat \<Rightarrow> collect_state
     \<Rightarrow> collect_state" where
  "finish_task E b buckets i s = send_rest E b buckets i ((task_step E b buckets i ^^ 3) s)"

fun wait_all ::
  "env \<Rightarrow> BucketUsageCollector \<Rightarrow> BucketStats_Bucket list \<Rightarrow> nat list \<Rightarrow> collect_state
     \<Rightarrow> collect_state" where
  "wait_all E b buckets [] s = s"
| "wait_all E b buckets (i # is) s = wait_all E b buckets is (finish_task E b buckets i s)"

text \<open>
  The result of \<open>collect\<close>: the error it returns, the metrics it sent to the
  channel (in the order of the sends), the entries it logged, and the panic that ended
  it, if any (nothing is returned then).
\<close>

record collect_result =
  returned :: "go_error option"
  emitted :: "Metric list"
  written :: "log_entry list"
  panic :: "go_error option"

definition BucketUsageCollector_collect ::
  "env \<Rightarrow> BucketUsageCollector \<Rightarrow> nat list \<Rightarrow> collect_result" where
  "BucketUsageCollector_collect E b sched =
     (case pkg_listBucketStats E (config b) (user b) of
        (buf0, Some e) \<Rightarrow>
          \<lparr>returned = Some e, emitted = [],
           written = [Entry ErrorLevel
                        (WithError e @ [(''config'', FString (config b)), (''user'', FString (user b))])
                        ''error list bucket stats''],
           panic = None\<rparr>
      | (buf0, None) \<Rightarrow>
          (case json_Unmarshal_buckets E buf0 of
             (buckets, Some e) \<Rightarrow> \<lparr>returned = Some e, emitted = [], written = [], panic = None\<rparr>
           | (buckets, None) \<Rightarrow>
               (let s0 = \<lparr>buf = buf0, err = None, latestErr = None, sent = [], logged = [],
                          tasks = replicate (length buckets) AtCall, panicked = None\<rparr>;
                    s1 = wait_all E b buckets [0..<length buckets] (interleave E b buckets sched s0)
                in \<lparr>returned = latestErr s1, emitted = sent s1, written = logged s1,
                    panic = panicked s1\<rparr>)))"

definition BucketUsageCollector_Describe :: "BucketUsageCollector \<Rightarrow> Desc list \<Rightarrow> Desc list" where
  "BucketUsageCollector_Describe b ch =
     ch @ [BucketUsageCollector.BytesSent b, BucketUsageCollector.BytesReceived b,
           BucketUsageCollector.Ops b, BucketUsageCollector.SuccessfulOps b]"

text \<open>
  \<open>Collect\<close> logs and returns; it neither calls \<open>collect\<close> again nor takes
  anything back from the channel.
\<close>

definition BucketUsageCollector_Collect ::
  "env \<Rightarrow> BucketUsageCollector \<Rightarrow> nat list \<Rightarrow> collect_result" where
  "BucketUsageCollector_Collect E b sched =
     (let r = BucketUsageCollector_collect E b sched;
          r1 = r\<lparr>written := Entry DebugLevel [] ''collecting bucket usage metrics'' # written r\<rparr>
      in if panic r \<noteq> None then r1
         else case returned r of
                Some e \<Rightarrow>
                  r1\<lparr>written := written r1 @
                       [Entry ErrorLevel (WithError e) ''error collecting bucket usage metrics'']\<rparr>
              | None \<Rightarrow> r1)"

section \<open>Predicates and scenarios used by the theorems\<close>

subsection \<open>The exporter\<close>

text \<open>
  The invariant of the cycle mutex: two goroutines in the locked section are the same
  goroutine, and while the mutex is free no goroutine is in the locked section.
\<close>

definition mutex_inv :: "cstate \<Rightarrow> bool" where
  "mutex_inv s \<longleftrightarrow>
     (\<forall>i < length (invs s). \<forall>j < length (invs s).
        locked_section (point (invs s ! i)) \<and> locked_section (point (invs s ! j)) \<longrightarrow> i = j)
     \<and> (\<not> mu (receiver s) \<longrightarrow> (\<forall>i < length (invs s). \<not> locked_section (point (invs s ! i))))"

text \<open>
  A cluster that answers the version command, and one whose monitors do not answer. The
  decoder and the parser of the scenario accept the one reply and the one version
  string that occur in it.
\<close>

definition version_reply :: bytes where
  \<open>version_reply = ''{"version":"ceph version 14.2.22 (ca74598065096e6fcbd8433c8779a2be0c889351) nautilus (stable)"}''\<close>

definition version_string :: string where
  "version_string = ''ceph version 14.2.22 (ca74598065096e6fcbd8433c8779a2be0c889351) nautilus (stable)''"

definition nautilus :: Version where
  "nautilus = \<lparr>Major = 14, Minor = 2, Patch = 22, Raw = version_string\<rparr>"

definition demo_conn :: Conn where
  "demo_conn = \<lparr>MonCommand = (\<lambda>cmd. (version_reply, [], None))\<rparr>"

definition down_conn :: Conn where
  "down_conn = \<lparr>MonCommand = (\<lambda>cmd. ([], [], Some (ErrorString ''rados: ret=-110, Connection timed out'')))\<rparr>"

definition demo_world :: world where
  "demo_world =
     \<lparr>json_Unmarshal_version = (\<lambda>raw.
        if raw = version_reply then (version_string, None)
        else ([], Some (ErrorString ''unexpected end of JSON input''))),
      ParseCephVersion = (\<lambda>v.
        if v = version_string then (Some nautilus, None)
        else (None, Some (ErrorString ''invalid ceph version''))),
      sub_Describe = (\<lambda>cc. []),
      sub_Collect = (\<lambda>cc v. [])\<rparr>"

definition demo_exporter :: "Conn \<Rightarrow> int \<Rightarrow> CephExporter" where
  "demo_exporter cn m = NewCephExporter cn ''ceph'' ''/etc/ceph/ceph.conf'' m (LogrusLogger ''std'')"

definition no_globals :: globals where
  "no_globals = \<lparr>CephVersion = None, log = [], calls = []\<rparr>"

subsection \<open>The bucket usage collector\<close>



definition declared_labels :: "string list" where
  "declared_labels = [''bucket'', ''user'', ''category'']"





definition descs_ok :: "BucketUsageCollector \<Rightarrow> bool" where
  "descs_ok b \<longleftrightarrow>
     variableLabels (BucketUsageCollector.BytesSent b) = declared_labels
     \<and> variableLabels (BucketUsageCollector.BytesReceived b) = declared_labels
     \<and> variableLabels (BucketUsageCollector.Ops b) = declared_labels
     \<and> variableLabels (BucketUsageCollector.SuccessfulOps b) = declared_labels"

text \<open>
  A goroutine has come to its end when it is done or a panic has ended the process. The
  stage of a goroutine counts the statements it has behind it, up to the loops.
\<close>

definition finished :: "collect_state \<Rightarrow> nat \<Rightarrow> bool" where
  "finished s j \<longleftrightarrow> panicked s \<noteq> None \<or> tasks s ! j = TaskDone"

fun stage :: "task \<Rightarrow> nat" where
  "stage AtCall = 0"
| "stage AtCheck = 1"
| "stage AtDecode = 2"
| "stage (AtEmit ps) = 3"
| "stage TaskDone = 3"

text \<open>
  The scenario of section 8 of the specification: the gateway has the buckets A, B and
  C; the usage command fails for B and prints one \<open>put_obj\<close> category (sent 100,
  received 50, 5 operations, 5 successful) for A and for C. \<open>exec_Output\<close> tells the
  two commands apart by their fifth argument and reads the bucket from the eighth. The
  decoders accept the two replies of the scenario; on the empty buffer they fail as
  encoding/json does.
\<close>

definition usage_reply :: bytes where
  \<open>usage_reply = ''{"summary":[{"user":"u1","categories":[{"category":"put_obj","bytes_sent":100,"bytes_received":50,"ops":5,"successful_ops":5}]}]}''\<close>

definition stats_reply :: bytes where
  \<open>stats_reply = ''[{"bucket":"A","owner":"u1"},{"bucket":"B","owner":"u1"},{"bucket":"C","owner":"u1"}]''\<close>

definition bucket_named :: "string \<Rightarrow> BucketStats_Bucket" where
  "bucket_named n =
     \<lparr>Bucket = n, NumShards = 0, ID = [], Owner = ''u1'', Mtime = [], CreationTime = []\<rparr>"

definition scenario_buckets :: "BucketStats_Bucket list" where
  "scenario_buckets = [bucket_named ''A'', bucket_named ''B'', bucket_named ''C'']"

definition put_obj_usage :: BucketUsage where
  "put_obj_usage =
     \<lparr>Summary =
        [\<lparr>BucketUsage_Summary.User = ''u1'',
          Categories =
            [\<lparr>Category = ''put_obj'',
              BucketUsage_Category.BytesSent = 100,
              BucketUsage_Category.BytesReceived = 50,
              BucketUsage_Category.Ops = 5,
              BucketUsage_Category.SuccessfulOps = 5\<rparr>]\<rparr>]\<rparr>"

definition scenario_env :: env where
  "scenario_env =
     \<lparr>radosgwAdminPath = ''radosgw-admin'',
      cephNamespace = ''ceph'',
      exec_Output = (\<lambda>path args.
         if args ! 4 = ''bucket'' then (stats_reply, None)
         else if args ! 7 = ''B'' then ([], Some (ErrorString ''exit status 1''))
         else (usage_reply, None)),
      json_Unmarshal_buckets = (\<lambda>raw.
         if raw = stats_reply then (scenario_buckets, None)
         else ([], Some (ErrorString ''unexpected end of JSON input''))),
      json_Unmarshal_usage = (\<lambda>raw.
         if raw = usage_reply then (put_obj_usage, None)
         else (\<lparr>Summary = []\<rparr>, Some (ErrorString ''unexpected end of JSON input'')))\<rparr>"

definition scenario_collector :: BucketUsageCollector where
  "scenario_collector =
     NewBucketUsageCollector scenario_env
       \<lparr>Config = ''/etc/ceph/ceph.conf'', Exporter.User = ''admin'',
        Logger = LogrusLogger ''std'', Version = None, Cluster = ''ceph''\<rparr>"

definition put_obj_labels :: "string \<Rightarrow> string list list" where
  "put_obj_labels n =
     [[n, ''u1'', ''put_obj''], [n, ''u1'', ''put_obj''],
      [n, ''u1'', ''put_obj''], [n, ''u1'', ''put_obj'']]"

section \<open>The version command\<close>

lemma marshal_version_cmd:
  \<open>json_Marshal [(''prefix'', VString ''version''), (''format'', VString ''json'')]
     = Inr ''{"format":"json","prefix":"version"}''\<close>
  by (simp add: json_Marshal_def json_string_def json_escape_char_def)

lemma cephVersionCmd_payload:
  \<open>cephVersionCmd c = Inr ''{"format":"json","prefix":"version"}''\<close>
  unfolding cephVersionCmd_def marshal_version_cmd by simp

text \<open>
  C9. \<open>cephVersionCmd\<close> returns the same bytes for every exporter and on every call:
  the JSON encoding of the map with \<open>prefix\<close> = \<open>version\<close> and \<open>format\<close> =
  \<open>json\<close>, keys in sorted order. The result is never the panic: encoding the constant
  map does not fail.
\<close>

theorem cephVersionCmd_fixed:
  \<open>cephVersionCmd c = Inr ''{"format":"json","prefix":"version"}''
   \<and> (\<forall>p. cephVersionCmd c \<noteq> Inl p)\<close>
  by (simp add: cephVersionCmd_payload)

section \<open>The listener\<close>

text \<open>
  C7. \<open>Accept\<close> on the three results of the underlying accept. When it failed with
  the error \<open>AcceptTCP\<close> builds for EMFILE (an \<open>OpError\<close> around a
  \<open>SyscallError\<close> around errno 24), the process ends with the fatal entry. When it
  failed with any other error, that error is returned as it is, with no connection, and
  the process goes on. When it succeeded, the connection is returned with keep-alive
  switched on and a period of three minutes (in nanoseconds), and no error.
\<close>

theorem Accept_cases:
  "Accept (tc, Some (OpError opn (SyscallError sc (Errno EMFILE))))
     = Exits (Entry FatalLevel (WithError (OpError opn (SyscallError sc (Errno EMFILE))))
                ''running out of file descriptors'')
   \<and> ((\<forall>opn sc. e \<noteq> OpError opn (SyscallError sc (Errno EMFILE)))
        \<longrightarrow> Accept (tc, Some e) = Returns None (Some e))
   \<and> Accept (Some tc', None)
        = Returns (Some (tc'\<lparr>keepAliveEnabled := True, keepAlivePeriod := 180000000000\<rparr>)) None"
  by (auto simp: Accept_def SetKeepAlive_def SetKeepAlivePeriod_def keepAlive_def Minute_def
        Second_def split: go_error.splits option.splits)

theorem Accept_cases_witness:
  "Accept (None, Some (OpError ''accept'' (SyscallError ''accept4'' (Errno 24))))
     = Exits (Entry FatalLevel (WithError (OpError ''accept'' (SyscallError ''accept4'' (Errno 24))))
                ''running out of file descriptors'')
   \<and> Accept (None, Some (OpError ''accept'' (SyscallError ''accept4'' (Errno 103))))
     = Returns None (Some (OpError ''accept'' (SyscallError ''accept4'' (Errno 103))))
   \<and> Accept (Some \<lparr>fd = 7, keepAliveEnabled = False, keepAlivePeriod = 0\<rparr>, None)
     = Returns (Some \<lparr>fd = 7, keepAliveEnabled = True, keepAlivePeriod = 180000000000\<rparr>) None"
  using Accept_cases [of None "''accept''" "''accept4''"
          "OpError ''accept'' (SyscallError ''accept4'' (Errno 103))"
          "\<lparr>fd = 7, keepAliveEnabled = False, keepAlivePeriod = 0\<rparr>"]
  by (simp add: EMFILE_def)

section \<open>The active list\<close>

text \<open>
  C6. \<open>getCollectors\<close> by gateway mode. The six standard sub-collectors always head
  the list, in the order of the source. Mode 1 appends the gateway collector made with
  \<open>false\<close> (foreground), mode 2 the one made with \<open>true\<close> (background), mode 0
  appends nothing, and none of the three logs. Every other mode appends nothing and
  logs one warning that carries the mode. The function returns a list for every mode.
\<close>

theorem getCollectors_by_mode:
  "(let standard = [NewClusterUsageCollector (conn c) (cluster c) (CephExporter.logger c),
                    NewPoolUsageCollector (conn c) (cluster c) (CephExporter.logger c),
                    NewPoolInfoCollector (conn c) (cluster c) (CephExporter.logger c),
                    NewClusterHealthCollector (conn c) (cluster c) (CephExporter.logger c),
                    NewMonitorCollector (conn c) (cluster c) (CephExporter.logger c),
                    NewOSDCollector (conn c) (cluster c) (CephExporter.logger c)];
        rgw = NewRGWCollector (cluster c) (CephExporter.config c)
    in (rgwMode c = 1 \<longrightarrow> getCollectors c = (standard @ [rgw False (CephExporter.logger c)], []))
     \<and> (rgwMode c = 2 \<longrightarrow> getCollectors c = (standard @ [rgw True (CephExporter.logger c)], []))
     \<and> (rgwMode c = 0 \<longrightarrow> getCollectors c = (standard, []))
     \<and> (rgwMode c \<notin> {0, 1, 2} \<longrightarrow>
          getCollectors c =
            (standard,
             [Entry WarnLevel [(''rgwMode'', FInt (rgwMode c))]
                ''RGW collector disabled due to invalid mode''])))"
  by (simp add: getCollectors_def RGWModeForeground_def RGWModeBackground_def
        RGWModeDisabled_def Let_def)

theorem getCollectors_by_mode_witness:
  "length (fst (getCollectors (demo_exporter demo_conn 1))) = 7
   \<and> last (fst (getCollectors (demo_exporter demo_conn 1)))
       = NewRGWCollector ''ceph'' ''/etc/ceph/ceph.conf'' False (LogrusLogger ''std'')
   \<and> last (fst (getCollectors (demo_exporter demo_conn 2)))
       = NewRGWCollector ''ceph'' ''/etc/ceph/ceph.conf'' True (LogrusLogger ''std'')
   \<and> length (fst (getCollectors (demo_exporter demo_conn 0))) = 6
   \<and> snd (getCollectors (demo_exporter demo_conn 0)) = []
   \<and> length (fst (getCollectors (demo_exporter demo_conn 99))) = 6
   \<and> snd (getCollectors (demo_exporter demo_conn 99))
       = [Entry WarnLevel [(''rgwMode'', FInt 99)] ''RGW collector disabled due to invalid mode'']"
  using getCollectors_by_mode [of "demo_exporter demo_conn 1"]
    getCollectors_by_mode [of "demo_exporter demo_conn 2"]
    getCollectors_by_mode [of "demo_exporter demo_conn 0"]
    getCollectors_by_mode [of "demo_exporter demo_conn 99"]
  by (simp add: demo_exporter_def NewCephExporter_def Let_def)

section \<open>The version gate\<close>

lemma setCephVersion_error_keeps:
  "setCephVersion w c g = Inr (Some e, g') \<Longrightarrow> g' = g"
  by (auto simp: setCephVersion_def cephVersionCmd_payload split: prod.splits option.splits)

lemma setCephVersion_down:
  "setCephVersion w (demo_exporter down_conn m) g
     = Inr (Some (ErrorString ''rados: ret=-110, Connection timed out''), g)"
  by (simp add: setCephVersion_def cephVersionCmd_payload demo_exporter_def NewCephExporter_def
        down_conn_def)

text \<open>
  C4. The three ways \<open>setCephVersion\<close> fails. Let the monitor command, sent with the
  fixed payload, return \<open>reply\<close> and \<open>err1\<close>, let the decoding of \<open>reply\<close> give
  \<open>ver\<close> and \<open>err2\<close>, and the parsing of \<open>ver\<close> give \<open>err3\<close>. When one of the
  three errors is not nil, \<open>setCephVersion\<close> returns a non-nil error and leaves the
  package state, with the slot \<open>CephVersion\<close>, as it was. And whenever it returns a
  non-nil error the slot holds what it held before.
\<close>

theorem setCephVersion_failure_keeps_version:
  \<open>(MonCommand (conn c) ''{"format":"json","prefix":"version"}'' = (reply, info, err1)
     \<and> json_Unmarshal_version w reply = (ver, err2)
     \<and> ParseCephVersion w ver = (pv, err3)
     \<and> (err1 \<noteq> None \<or> err2 \<noteq> None \<or> err3 \<noteq> None)
     \<longrightarrow> (\<exists>e. setCephVersion w c g = Inr (Some e, g)))
   \<and> (setCephVersion w c g = Inr (Some e', g') \<longrightarrow> CephVersion g' = CephVersion g)\<close>
  using setCephVersion_error_keeps [of w c g e' g']
  by (auto simp: setCephVersion_def cephVersionCmd_payload split: prod.splits option.splits)

theorem setCephVersion_failure_keeps_version_witness:
  "setCephVersion demo_world (demo_exporter down_conn 0) (no_globals\<lparr>CephVersion := Some nautilus\<rparr>)
     = Inr (Some (ErrorString ''rados: ret=-110, Connection timed out''),
            no_globals\<lparr>CephVersion := Some nautilus\<rparr>)
   \<and> CephVersion (no_globals\<lparr>CephVersion := Some nautilus\<rparr>) = Some nautilus"
  using setCephVersion_failure_keeps_version
    [of "demo_exporter down_conn 0" "[]" "[]"
        "Some (ErrorString ''rados: ret=-110, Connection timed out'')"
        demo_world "[]" "Some (ErrorString ''unexpected end of JSON input'')"
        None "Some (ErrorString ''invalid ceph version'')"
        "no_globals\<lparr>CephVersion := Some nautilus\<rparr>"
        "ErrorString ''rados: ret=-110, Connection timed out''"
        "no_globals\<lparr>CephVersion := Some nautilus\<rparr>"]
  by (simp add: setCephVersion_down)

section \<open>Describe and Collect when the version is not available\<close>

text \<open>
  C5. When \<open>setCephVersion\<close> returns a non-nil error, \<open>Collect\<close> and \<open>Describe\<close>
  return (they neither panic nor wait for the mutex), the channel is as it was (nothing
  was sent), and the package state differs from the one before the call only by the one
  error entry in the log: the version slot is unchanged and no sub-collector was called.
  \<open>Collect\<close> leaves the exporter, with its mutex, untouched.
\<close>

theorem version_failure_emits_nothing:
  "setCephVersion w c g = Inr (Some e, g1) \<Longrightarrow>
     CephExporter_Collect w c g ch =
       Done (c, g\<lparr>log := log g @ [Entry ErrorLevel (WithError e) ''failed to set ceph version'']\<rparr>, ch)
     \<and> CephExporter_Describe w c g dch =
       Done (g\<lparr>log := log g @ [Entry ErrorLevel (WithError e) ''failed to set ceph version'']\<rparr>, dch)"
  using setCephVersion_error_keeps [of w c g e g1]
  by (simp add: CephExporter_Collect_def CephExporter_Describe_def version_failed_def)

theorem version_failure_emits_nothing_witness:
  "CephExporter_Collect demo_world (demo_exporter down_conn 1) no_globals [] =
       Done (demo_exporter down_conn 1,
             \<lparr>CephVersion = None,
              log = [Entry ErrorLevel
                       [(''error'', FError (ErrorString ''rados: ret=-110, Connection timed out''))]
                       ''failed to set ceph version''],
              calls = []\<rparr>, [])
   \<and> CephExporter_Describe demo_world (demo_exporter down_conn 1) no_globals [] =
       Done (\<lparr>CephVersion = None,
              log = [Entry ErrorLevel
                       [(''error'', FError (ErrorString ''rados: ret=-110, Connection timed out''))]
                       ''failed to set ceph version''],
              calls = []\<rparr>, [])"
  using version_failure_emits_nothing [OF setCephVersion_down, of demo_world 1 no_globals "[]" "[]"]
  by (simp add: no_globals_def WithError_def)


section \<open>Mutual exclusion of concurrent calls of Collect\<close>

lemma mutex_inv_init: "\<not> mu c \<Longrightarrow> mutex_inv (init c g chs)"
  by (simp add: mutex_inv_def init_def)

lemma mutex_inv_step:
  assumes "mutex_inv s" and "step w t s = Some s'"
  shows "mutex_inv s'"
proof -
  from assms(2) have t: "t < length (invs s)"
    by (auto simp: step_def split: if_splits)
  show ?thesis
  proof (cases "point (invs s ! t)")
    case AtRefresh
    with assms t show ?thesis
      by (auto simp: step_def goto_def mutex_inv_def nth_list_update
          split: if_splits sum.splits prod.splits option.splits)
  next
    case AtLock
    with assms t show ?thesis
      by (auto simp: step_def goto_def mutex_inv_def nth_list_update split: if_splits)
  next
    case AtRange
    with assms t show ?thesis
      by (auto simp: step_def goto_def mutex_inv_def nth_list_update split: if_splits prod.splits)
  next
    case (InLoop ccs)
    with assms t show ?thesis
      by (cases ccs) (auto simp: step_def goto_def mutex_inv_def nth_list_update collect_one_def
          split: if_splits prod.splits)
  next
    case Returned
    with assms t show ?thesis by (simp add: step_def split: if_splits)
  qed
qed

lemma mutex_inv_run: "mutex_inv s \<Longrightarrow> run w sched s = Some s' \<Longrightarrow> mutex_inv s'"
  by (induction sched arbitrary: s) (auto split: option.splits dest: mutex_inv_step)

lemma filter_at_most_one:
  "distinct xs \<Longrightarrow> (\<forall>x \<in> set xs. \<forall>y \<in> set xs. P x \<and> P y \<longrightarrow> x = y)
     \<Longrightarrow> length (filter P xs) \<le> Suc 0"
proof (induction xs)
  case Nil
  then show ?case by simp
next
  case (Cons a xs)
  show ?case
  proof (cases "P a")
    case True
    with Cons.prems have "\<forall>x \<in> set xs. \<not> P x" by auto
    then have "filter P xs = []" by (simp add: filter_empty_conv)
    with True show ?thesis by simp
  next
    case False
    with Cons show ?thesis by simp
  qed
qed

lemma mutex_inv_at_most_one: "mutex_inv s \<Longrightarrow> length (in_locked_section s) \<le> 1"
  unfolding in_locked_section_def mutex_inv_def
  using filter_at_most_one [of "[0..<length (invs s)]" "\<lambda>t. locked_section (point (invs s ! t))"]
  by auto

lemma run_append:
  "run w (xs @ ys) s = (case run w xs s of None \<Rightarrow> None | Some s' \<Rightarrow> run w ys s')"
  by (induction xs arbitrary: s) (auto split: option.splits)

text \<open>The scenario: two scrapes of a healthy cluster, gateway collection disabled.\<close>

lemma setCephVersion_demo:
  "setCephVersion demo_world (demo_exporter demo_conn m\<lparr>mu := l\<rparr>) g
     = Inr (None, g\<lparr>CephVersion := Some nautilus\<rparr>)"
  by (simp add: setCephVersion_def cephVersionCmd_payload demo_exporter_def NewCephExporter_def
        demo_conn_def demo_world_def)

lemma demo_run_prefix:
  "run demo_world [0, 0, 0, 0, 1] (init (demo_exporter demo_conn 0) no_globals [[], []])
     = Some \<lparr>receiver = demo_exporter demo_conn 0\<lparr>mu := True\<rparr>,
             glob = \<lparr>CephVersion = Some nautilus, log = [],
                     calls = [CollectCall (NewClusterUsageCollector demo_conn ''ceph'' (LogrusLogger ''std''))]\<rparr>,
             invs = [\<lparr>point = InLoop [NewPoolUsageCollector demo_conn ''ceph'' (LogrusLogger ''std''),
                                      NewPoolInfoCollector demo_conn ''ceph'' (LogrusLogger ''std''),
                                      NewClusterHealthCollector demo_conn ''ceph'' (LogrusLogger ''std''),
                                      NewMonitorCollector demo_conn ''ceph'' (LogrusLogger ''std''),
                                      NewOSDCollector demo_conn ''ceph'' (LogrusLogger ''std'')],
                      out_ch = []\<rparr>,
                     \<lparr>point = AtLock, out_ch = []\<rparr>],
             crashed = None\<rparr>"
proof -
  have v: "setCephVersion demo_world (demo_exporter demo_conn 0) g
             = Inr (None, g\<lparr>CephVersion := Some nautilus\<rparr>)" for g
    using setCephVersion_demo [where m = 0 and l = "mu (demo_exporter demo_conn 0)" and g = g]
    by simp
  have c: "getCollectors (demo_exporter demo_conn 0\<lparr>mu := True\<rparr>)
             = ([NewClusterUsageCollector demo_conn ''ceph'' (LogrusLogger ''std''),
                 NewPoolUsageCollector demo_conn ''ceph'' (LogrusLogger ''std''),
                 NewPoolInfoCollector demo_conn ''ceph'' (LogrusLogger ''std''),
                 NewClusterHealthCollector demo_conn ''ceph'' (LogrusLogger ''std''),
                 NewMonitorCollector demo_conn ''ceph'' (LogrusLogger ''std''),
                 NewOSDCollector demo_conn ''ceph'' (LogrusLogger ''std'')], [])"
    by (simp add: getCollectors_def demo_exporter_def NewCephExporter_def RGWModeForeground_def
          RGWModeBackground_def RGWModeDisabled_def)
  have m: "\<not> mu (demo_exporter demo_conn 0)"
    by (simp add: demo_exporter_def NewCephExporter_def)
  have k: "sub_Collect demo_world cc ver = []" for cc ver
    by (simp add: demo_world_def)
  show ?thesis
    by (simp add: init_def step_def goto_def v c m k setCephVersion_demo collect_one_def
          no_globals_def)
qed

text \<open>
  C1, at a failing input. The comment on \<open>Collect\<close> says that its run is protected by
  a single mutex, but \<open>setCephVersion\<close> is called before \<open>c.mu.Lock()\<close>. With two
  calls on a healthy cluster, call 0 refreshes the version, locks, builds its list and
  calls its first sub-collector; then call 1 refreshes the version (a step of call 1
  between two steps of call 0, while call 0 is inside its loop and holds the mutex, as
  the state after these five steps shows); then call 0 calls its second sub-collector.
  The schedule runs, and it is not serial: the two calls interleave.
\<close>

theorem Collect_refresh_interleaves:
  "run demo_world [0, 0, 0, 0, 1, 0] (init (demo_exporter demo_conn 0) no_globals [[], []]) \<noteq> None
   \<and> \<not> serial [0, 0, 0, 0, 1, 0]
   \<and> map_option (\<lambda>s. (mu (receiver s), map (locked_section \<circ> point) (invs s), point (invs s ! 1)))
        (run demo_world [0, 0, 0, 0, 1] (init (demo_exporter demo_conn 0) no_globals [[], []]))
      = Some (True, [True, False], AtLock)"
proof -
  have "run demo_world ([0, 0, 0, 0, 1] @ [0]) (init (demo_exporter demo_conn 0) no_globals [[], []]) \<noteq> None"
    unfolding run_append demo_run_prefix
    by (simp add: step_def collect_one_def)
  moreover have "\<not> serial [0, 0, 0, 0, 1, 0]"
    by (simp add: serial_def)
  ultimately show ?thesis
    unfolding demo_run_prefix by simp
qed

text \<open>
  What the mutex does protect. Whatever the schedule, when the calls start with the
  mutex free, at most one call is in the locked section (from the return of \<open>Lock\<close>,
  through \<open>getCollectors\<close> and the loop over the sub-collectors, to the deferred
  \<open>Unlock\<close>) in every state that is reached. The version refresh is left outside.
\<close>

lemma Collect_locked_sections_exclusive:
  "\<not> mu c \<Longrightarrow> run w sched (init c g chs) = Some s \<Longrightarrow> length (in_locked_section s) \<le> 1"
  by (rule mutex_inv_at_most_one) (rule mutex_inv_run [OF mutex_inv_init])

lemma Collect_locked_sections_exclusive_at_scenario:
  "\<not> mu (demo_exporter demo_conn 0)
   \<and> (case run demo_world [0, 0, 0, 0, 1] (init (demo_exporter demo_conn 0) no_globals [[], []]) of
        None \<Rightarrow> False
      | Some s \<Rightarrow> in_locked_section s = [0] \<and> length (in_locked_section s) \<le> 1)"
proof -
  have m: "\<not> mu (demo_exporter demo_conn 0)"
    by (simp add: demo_exporter_def NewCephExporter_def)
  from Collect_locked_sections_exclusive [OF m demo_run_prefix] m show ?thesis
    unfolding demo_run_prefix by (simp add: in_locked_section_def)
qed

text \<open>
  One call running alone takes the steps of \<open>Collect\<close>: when the sequential
  \<open>Collect\<close> returns, the schedule that steps this one goroutine often enough ends in
  the state that \<open>Collect\<close> returns, with the goroutine returned.
\<close>

lemma run_loop:
  "t < length (invs s) \<Longrightarrow> crashed s = None \<Longrightarrow> point (invs s ! t) = InLoop ccs
   \<Longrightarrow> run w (replicate (length ccs) t) s
       = Some (s\<lparr>glob := fst (collect_all w ccs (glob s) (out_ch (invs s ! t))),
                 invs := (invs s)[t := \<lparr>point = InLoop [],
                                          out_ch = snd (collect_all w ccs (glob s)
                                                          (out_ch (invs s ! t)))\<rparr>]\<rparr>)"
proof (induction ccs arbitrary: s)
  case Nil
  have "(invs s)[t := \<lparr>point = InLoop [], out_ch = out_ch (invs s ! t)\<rparr>] = invs s"
    using Nil by (metis invocation.surjective list_update_id old.unit.exhaust)
  then show ?case by simp
next
  case (Cons cc ccs)
  obtain g' ch' where one: "collect_one w cc (glob s) (out_ch (invs s ! t)) = (g', ch')"
    by (cases "collect_one w cc (glob s) (out_ch (invs s ! t))") auto
  let ?s1 = "s\<lparr>glob := g', invs := (invs s)[t := \<lparr>point = InLoop ccs, out_ch = ch'\<rparr>]\<rparr>"
  from Cons.prems one have st: "step w t s = Some ?s1"
    by (simp add: step_def)
  from Cons.prems have "run w (replicate (length ccs) t) ?s1
       = Some (?s1\<lparr>glob := fst (collect_all w ccs (glob ?s1) (out_ch (invs ?s1 ! t))),
                 invs := (invs ?s1)[t := \<lparr>point = InLoop [],
                                          out_ch = snd (collect_all w ccs (glob ?s1)
                                                          (out_ch (invs ?s1 ! t)))\<rparr>]\<rparr>)"
    by (intro Cons.IH) simp_all
  with Cons.prems st one show ?case by simp
qed

lemma Collect_alone:
  assumes free: "\<not> mu c" and ret: "CephExporter_Collect w c g ch = Done (c', g', ch')"
  shows "\<exists>n. run w (replicate n 0) (init c g [ch])
           = Some \<lparr>receiver = c', glob = g', invs = [\<lparr>point = Returned, out_ch = ch'\<rparr>],
                   crashed = None\<rparr>"
proof -
  obtain r g1 where v: "setCephVersion w c g = Inr (r, g1)"
    by (cases "setCephVersion w c g")
       (auto simp: setCephVersion_def cephVersionCmd_payload split: prod.splits option.splits)
  show ?thesis
  proof (cases r)
    case (Some e)
    with v ret have "run w (replicate 1 0) (init c g [ch])
           = Some \<lparr>receiver = c', glob = g', invs = [\<lparr>point = Returned, out_ch = ch'\<rparr>],
                   crashed = None\<rparr>"
      by (simp add: CephExporter_Collect_def init_def step_def goto_def)
    then show ?thesis by blast
  next
    case None
    obtain ccs warn where gc: "getCollectors (c\<lparr>mu := True\<rparr>) = (ccs, warn)"
      by (cases "getCollectors (c\<lparr>mu := True\<rparr>)") auto
    let ?s3 = "\<lparr>receiver = c\<lparr>mu := True\<rparr>, glob = g1\<lparr>log := log g1 @ warn\<rparr>,
               invs = [\<lparr>point = InLoop ccs, out_ch = ch\<rparr>], crashed = None\<rparr>"
    from v None free gc have a: "run w [0, 0, 0] (init c g [ch]) = Some ?s3"
      by (simp add: init_def step_def goto_def)
    from ret v None free gc
    have all: "collect_all w ccs (g1\<lparr>log := log g1 @ warn\<rparr>) ch = (g', ch')" and c': "c' = c\<lparr>mu := False\<rparr>"
      by (auto simp: CephExporter_Collect_def Let_def split: prod.splits)
    let ?s4 = "\<lparr>receiver = c\<lparr>mu := True\<rparr>, glob = g',
               invs = [\<lparr>point = InLoop [], out_ch = ch'\<rparr>], crashed = None\<rparr>"
    have b: "run w (replicate (length ccs) 0) ?s3 = Some ?s4"
      using run_loop [of 0 ?s3 ccs w] all by simp
    have c: "run w [0] ?s4
           = Some \<lparr>receiver = c', glob = g', invs = [\<lparr>point = Returned, out_ch = ch'\<rparr>],
                   crashed = None\<rparr>"
      by (simp add: step_def goto_def c')
    have "run w ([0, 0, 0] @ replicate (length ccs) 0 @ [0]) (init c g [ch])
           = Some \<lparr>receiver = c', glob = g', invs = [\<lparr>point = Returned, out_ch = ch'\<rparr>],
                   crashed = None\<rparr>"
      by (simp only: run_append a b c option.case)
    moreover have "[0, 0, 0] @ replicate (length ccs) 0 @ [0] = replicate (length ccs + 4) (0::nat)"
      by (simp add: replicate_append_same numeral_eq_Suc)
    ultimately show ?thesis by metis
  qed
qed

section \<open>Properties of the bucket usage collector\<close>

lemma descs_ok_New: "descs_ok (NewBucketUsageCollector E x)"
  by (simp add: descs_ok_def NewBucketUsageCollector_def NewDesc_def declared_labels_def Let_def)














lemma task_step_ignores_listBucketStats:
  "task_step E (b\<lparr>listBucketStats := f\<rparr>) bks i s = task_step E b bks i s"
proof -
  have "category_sends (b\<lparr>listBucketStats := f\<rparr>) = category_sends b"
    by (intro ext) (simp add: category_sends_def)
  then have "usage_sends (b\<lparr>listBucketStats := f\<rparr>) = usage_sends b"
    by (intro ext) (simp add: usage_sends_def)
  then show ?thesis
    by (auto simp: task_step_def Let_def
             split: task.splits prod.splits option.splits list.splits sum.splits)
qed

lemma interleave_ignores_listBucketStats:
  "interleave E (b\<lparr>listBucketStats := f\<rparr>) bks sched s = interleave E b bks sched s"
  by (induction sched arbitrary: s) (simp_all add: task_step_ignores_listBucketStats)

lemma finish_task_ignores_listBucketStats:
  "finish_task E (b\<lparr>listBucketStats := f\<rparr>) bks i s = finish_task E b bks i s"
proof -
  have "task_step E (b\<lparr>listBucketStats := f\<rparr>) bks i = task_step E b bks i"
    by (rule ext) (rule task_step_ignores_listBucketStats)
  then show ?thesis by (simp only: finish_task_def send_rest_def)
qed

lemma wait_all_ignores_listBucketStats:
  "wait_all E (b\<lparr>listBucketStats := f\<rparr>) bks is s = wait_all E b bks is s"
  by (induction "is" arbitrary: s) (simp_all add: finish_task_ignores_listBucketStats)

text \<open>
  C10. \<open>collect\<close> does not read the field \<open>listBucketStats\<close>: two collectors that
  differ in this field only give the same result (returned error, metrics sent, log
  entries, panic) in the same environment and under the same schedule. The enumeration
  calls the package-level function.
\<close>

theorem collect_ignores_listBucketStats_field:
  "BucketUsageCollector_collect E (b\<lparr>listBucketStats := f\<rparr>) sched
     = BucketUsageCollector_collect E b sched"
  by (simp add: BucketUsageCollector_collect_def wait_all_ignores_listBucketStats
        interleave_ignores_listBucketStats)

subsection \<open>The scenario with three buckets\<close>

lemma usage_reply_nonempty: "usage_reply \<noteq> []"
  by (simp add: usage_reply_def)

lemma sc_list: "pkg_listBucketStats scenario_env cfg usr = (stats_reply, None)"
  by (simp add: pkg_listBucketStats_def scenario_env_def)

lemma sc_buckets: "json_Unmarshal_buckets scenario_env stats_reply = (scenario_buckets, None)"
  by (simp add: scenario_env_def)

lemma sc_show:
  "showBucketUsage scenario_collector cfg usr bkt uid =
     (if bkt = ''B'' then ([], Some (ErrorString ''exit status 1'')) else (usage_reply, None))"
  by (simp add: scenario_collector_def NewBucketUsageCollector_def pkg_showBucketUsage_def
        scenario_env_def Let_def)

lemma sc_usage:
  "json_Unmarshal_usage scenario_env usage_reply = (put_obj_usage, None)"
  "json_Unmarshal_usage scenario_env [] =
     (\<lparr>Summary = []\<rparr>, Some (ErrorString ''unexpected end of JSON input''))"
  using usage_reply_nonempty by (auto simp add: scenario_env_def)

lemma sc_descs:
  "variableLabels (BucketUsageCollector.BytesSent scenario_collector) = declared_labels"
  "variableLabels (BucketUsageCollector.BytesReceived scenario_collector) = declared_labels"
  "variableLabels (BucketUsageCollector.Ops scenario_collector) = declared_labels"
  "variableLabels (BucketUsageCollector.SuccessfulOps scenario_collector) = declared_labels"
  using descs_ok_New [of scenario_env] by (simp_all add: scenario_collector_def descs_ok_def)

lemma collect_started:
  "pkg_listBucketStats E (BucketUsageCollector.config b) (user b) = (raw, None)
   \<Longrightarrow> json_Unmarshal_buckets E raw = (bks, None)
   \<Longrightarrow> BucketUsageCollector_collect E b sched =
       (let s1 = wait_all E b bks [0..<length bks]
                   (interleave E b bks sched
                      \<lparr>buf = raw, err = None, latestErr = None, sent = [], logged = [],
                       tasks = replicate (length bks) AtCall, panicked = None\<rparr>)
        in \<lparr>returned = latestErr s1, emitted = sent s1, written = logged s1,
            panic = panicked s1\<rparr>)"
  by (simp add: BucketUsageCollector_collect_def)

lemma sc_start:
  "BucketUsageCollector_collect scenario_env scenario_collector sched =
       (let s1 = wait_all scenario_env scenario_collector scenario_buckets [0, 1, 2]
                   (interleave scenario_env scenario_collector scenario_buckets sched
                      \<lparr>buf = stats_reply, err = None, latestErr = None, sent = [], logged = [],
                       tasks = [AtCall, AtCall, AtCall], panicked = None\<rparr>)
        in \<lparr>returned = latestErr s1, emitted = sent s1, written = logged s1,
            panic = panicked s1\<rparr>)"
proof -
  have l: "length scenario_buckets = 3" by (simp add: scenario_buckets_def)
  have u: "[0..<3] = [0, 1, 2]" by (simp add: upt_rec)
  have r: "replicate 3 AtCall = [AtCall, AtCall, AtCall]" by (simp add: numeral_3_eq_3)
  show ?thesis
    unfolding collect_started [OF sc_list sc_buckets] l u r ..
qed

lemmas sc_steps = sc_show sc_usage sc_descs scenario_buckets_def bucket_named_def
  task_step_def task_at_def finish_task_def send_rest_def usage_sends_def category_sends_def put_obj_usage_def
  MustNewConstMetric_def numeral_3_eq_3 WithError_def declared_labels_def put_obj_labels_def


text \<open>
  C2, at a failing input. Three buckets, the lookup fails for B only (M = 3, K = 1). The
  goroutines of A and C return from their lookups, then the goroutine of B returns
  from its lookup and overwrites the shared \<open>buf\<close> and \<open>err\<close>; only then do the
  three goroutines go on. All three find the error of B in \<open>err\<close> and the empty
  buffer in \<open>buf\<close>: nothing is sent for the two buckets whose lookups succeeded. The
  error returned is not nil.
\<close>

theorem collect_loses_succeeding_buckets:
  "emitted (BucketUsageCollector_collect scenario_env scenario_collector [0, 2, 1]) = []
   \<and> returned (BucketUsageCollector_collect scenario_env scenario_collector [0, 2, 1])
       = Some (ErrorString ''unexpected end of JSON input'')
   \<and> emitted (BucketUsageCollector_Collect scenario_env scenario_collector [0, 2, 1]) = []"
  unfolding BucketUsageCollector_Collect_def sc_start by (simp add: sc_steps)

text \<open>
  C3, at a failing input. The scenario of section 8. The goroutine of B returns from its
  failed lookup, then the goroutine of A returns from its lookup and overwrites the
  shared \<open>buf\<close> and \<open>err\<close>; then each goroutine runs to its end. The goroutine of B
  finds no error and decodes the reply for A: twelve samples are sent, four of them with
  the bucket label B, and the error returned is nil.
\<close>

theorem collect_scenario_emits_for_failed_bucket:
  "map labelValues (emitted (BucketUsageCollector_collect scenario_env scenario_collector [1, 0]))
     = put_obj_labels ''A'' @ put_obj_labels ''B'' @ put_obj_labels ''C''
   \<and> returned (BucketUsageCollector_collect scenario_env scenario_collector [1, 0]) = None"
  unfolding sc_start by (simp add: sc_steps)


subsection \<open>Every goroutine is run to its end\<close>

text \<open>
  \<open>collect\<close> returns what the state holds when \<open>wg.Wait()\<close> returns. In that state
  every goroutine is done, unless a panic has ended the process: a goroutine that is
  done stays done, \<open>finish_task\<close> brings its goroutine to the end, and \<open>wait_all\<close>
  does so for each bucket.
\<close>

lemma task_step_length [simp]: "length (tasks (task_step E b bks i s)) = length (tasks s)"
  by (auto simp: task_step_def task_at_def Let_def
           split: task.splits prod.splits option.splits list.splits sum.splits)

lemma task_step_finished:
  "finished s j \<Longrightarrow> finished (task_step E b bks i s) j"
  by (cases "i = j")
     (auto simp: finished_def task_step_def task_at_def Let_def
           split: task.splits prod.splits option.splits list.splits sum.splits)

lemma funpow_finished:
  "finished s j \<Longrightarrow> finished ((task_step E b bks i ^^ n) s) j"
  by (induction n) (auto intro: task_step_finished)

lemma funpow_length [simp]:
  "length (tasks ((task_step E b bks i ^^ n) s)) = length (tasks s)"
  by (induction n) auto

lemma sends_finish:
  "i < length (tasks s) \<Longrightarrow> i < length bks \<Longrightarrow> tasks s ! i = AtEmit ps
   \<Longrightarrow> finished ((task_step E b bks i ^^ Suc (length ps)) s) i"
proof (induction ps arbitrary: s)
  case Nil
  then show ?case
    by (auto simp: finished_def task_step_def task_at_def)
next
  case (Cons p ps)
  obtain d vt v lvs where p: "p = (d, vt, v, lvs)" by (cases p) auto
  let ?s1 = "task_step E b bks i s"
  have swap: "(task_step E b bks i ^^ Suc (length (p # ps))) s
                = (task_step E b bks i ^^ Suc (length ps)) ?s1"
    by (simp add: funpow_swap1)
  show ?case
  proof (cases "panicked ?s1 = None \<and> tasks ?s1 ! i = AtEmit ps")
    case True
    with Cons.prems have "finished ((task_step E b bks i ^^ Suc (length ps)) ?s1) i"
      by (intro Cons.IH) simp_all
    with swap show ?thesis by simp
  next
    case False
    with Cons.prems p have "finished ?s1 i"
      by (auto simp: finished_def task_step_def task_at_def Let_def split: sum.splits if_splits)
    then have "finished ((task_step E b bks i ^^ Suc (length ps)) ?s1) i"
      by (rule funpow_finished)
    with swap show ?thesis by simp
  qed
qed

lemma step_stage:
  assumes "i < length (tasks s)" "i < length bks"
  shows "finished (task_step E b bks i s) i
       \<or> min 3 (Suc (stage (tasks s ! i))) \<le> stage (tasks (task_step E b bks i s) ! i)"
proof (cases "panicked s = None")
  case False
  then show ?thesis by (simp add: finished_def task_step_def)
next
  case True
  show ?thesis
  proof (cases "tasks s ! i")
    case AtCall
    with True assms show ?thesis
      by (simp add: task_step_def task_at_def Let_def split: prod.splits)
  next
    case AtCheck
    with True assms show ?thesis
      by (simp add: task_step_def task_at_def Let_def split: option.splits)
  next
    case AtDecode
    with True assms show ?thesis
      by (simp add: task_step_def task_at_def Let_def split: prod.splits option.splits)
  next
    case (AtEmit ps)
    with True assms show ?thesis
      by (cases ps) (auto simp: finished_def task_step_def task_at_def Let_def split: sum.splits)
  next
    case TaskDone
    with True assms show ?thesis
      by (simp add: finished_def task_step_def)
  qed
qed

lemma three_steps:
  assumes "i < length (tasks s)" "i < length bks"
  shows "finished ((task_step E b bks i ^^ 3) s) i
       \<or> (\<exists>ps. tasks ((task_step E b bks i ^^ 3) s) ! i = AtEmit ps)"
proof -
  let ?f = "task_step E b bks i"
  have one: "finished (?f t) i \<or> min 3 (Suc (stage (tasks t ! i))) \<le> stage (tasks (?f t) ! i)"
    if "length (tasks t) = length (tasks s)" for t
    using step_stage [of i t bks E b] assms that by simp
  have s1: "finished (?f s) i \<or> 1 \<le> stage (tasks (?f s) ! i)"
    using one [of s] by auto
  have s2: "finished (?f (?f s)) i \<or> 2 \<le> stage (tasks (?f (?f s)) ! i)"
    using s1 one [of "?f s"] task_step_finished [of "?f s" i E b bks i] by auto
  have s3: "finished (?f (?f (?f s))) i \<or> 3 \<le> stage (tasks (?f (?f (?f s))) ! i)"
    using s2 one [of "?f (?f s)"] task_step_finished [of "?f (?f s)" i E b bks i] by auto
  have "3 \<le> stage t \<Longrightarrow> t = TaskDone \<or> (\<exists>ps. t = AtEmit ps)" for t
    by (cases t) simp_all
  with s3 show ?thesis
    by (auto simp: numeral_3_eq_3 finished_def)
qed

lemma finish_task_finished_other:
  "finished s j \<Longrightarrow> finished (finish_task E b bks i s) j"
  unfolding finish_task_def send_rest_def
  by (auto split: task.splits intro!: funpow_finished task_step_finished
           simp del: funpow.simps)

lemma finish_task_finishes:
  assumes "i < length (tasks s)" "i < length bks"
  shows "finished (finish_task E b bks i s) i"
proof -
  let ?s3 = "(task_step E b bks i ^^ 3) s"
  from assms have i3: "i < length (tasks ?s3)" by simp
  from three_steps [OF assms, of E b] show ?thesis
  proof
    assume "finished ?s3 i"
    then show ?thesis
      unfolding finish_task_def send_rest_def
      by (auto split: task.splits intro!: funpow_finished task_step_finished
               simp del: funpow.simps)
  next
    assume "\<exists>ps. tasks ?s3 ! i = AtEmit ps"
    then obtain ps where ps: "tasks ?s3 ! i = AtEmit ps" ..
    from sends_finish [OF i3 assms(2) ps, of E b] i3 ps show ?thesis
      unfolding finish_task_def send_rest_def by (simp del: funpow.simps)
  qed
qed

lemma finish_task_length [simp]:
  "length (tasks (finish_task E b bks i s)) = length (tasks s)"
  unfolding finish_task_def send_rest_def by (simp split: task.splits del: funpow.simps)

lemma wait_all_finished_other:
  "finished s j \<Longrightarrow> finished (wait_all E b bks is s) j"
  by (induction "is" arbitrary: s) (auto intro: finish_task_finished_other)

lemma wait_all_finishes:
  "j \<in> set is \<Longrightarrow> j < length (tasks s) \<Longrightarrow> j < length bks
   \<Longrightarrow> finished (wait_all E b bks is s) j"
proof (induction "is" arbitrary: s)
  case Nil
  then show ?case by simp
next
  case (Cons i "is")
  show ?case
  proof (cases "j = i")
    case True
    with Cons.prems have "finished (finish_task E b bks i s) j"
      by (simp add: finish_task_finishes)
    then show ?thesis by (simp add: wait_all_finished_other)
  next
    case False
    with Cons.prems have "finished (wait_all E b bks is (finish_task E b bks i s)) j"
      by (intro Cons.IH) simp_all
    then show ?thesis by simp
  qed
qed

lemma interleave_length [simp]:
  "length (tasks (interleave E b bks sched s)) = length (tasks s)"
  by (induction sched arbitrary: s) auto

lemma collect_waits_for_all:
  "length (tasks s) = length bks \<Longrightarrow> j < length bks
   \<Longrightarrow> finished (wait_all E b bks [0..<length bks] (interleave E b bks sched s)) j"
  by (rule wait_all_finishes) simp_all

end
